theory Spec2Isabelle
  imports Complex_Main
begin

section \<open>The scope example of ingenialink-python: data model\<close>

text \<open>
  The development embeds \<^verbatim>\<open>examples/scope/scope.py\<close>: the homing runner
  (\<^verbatim>\<open>HomingRunner.run\<close>), the handlers of \<^verbatim>\<open>ScopeWindow\<close> that
  change the axis state, and the rolling sample buffer fed by the plot timer.

  The axis, the poller and the Qt timer are external objects. What the code does to them
  is kept in two ways: as flags of the window (is the timer active, is the poller
  running) and as a log of the calls in the order the code makes them.
\<close>

subsection \<open>The device\<close>

datatype mode = MODE_HOMING | MODE_PP | MODE_PV

text \<open>
  The operations the example performs on an axis: the assignments to \<^verbatim>\<open>axis.mode\<close>,
  \<^verbatim>\<open>axis.units_pos\<close> and \<^verbatim>\<open>axis.units_vel\<close>, and the calls of
  \<^verbatim>\<open>enable\<close>, \<^verbatim>\<open>disable\<close>, \<^verbatim>\<open>homing_start\<close> and
  \<^verbatim>\<open>homing_wait(timeout)\<close>.
\<close>

datatype dev_op =
    SetMode mode
  | SetUnitsPos
  | SetUnitsVel
  | Enable
  | Disable
  | HomingStart
  | HomingWait nat

text \<open>
  Each operation either returns or raises an exception; a device is the function that
  says which: \<open>None\<close> when the operation returns, \<open>Some msg\<close> when it raises an
  exception whose \<^verbatim>\<open>str\<close> is \<open>msg\<close>. No handler and no run of the homing
  runner performs the same operation twice, so a function of the operation covers every
  combination of successes and failures.
\<close>

type_synonym device = "dev_op \<Rightarrow> string option"

definition dev_ok :: device where
  "dev_ok = (\<lambda>_. None)"

definition dev_fails :: "dev_op \<Rightarrow> string \<Rightarrow> device" where
  "dev_fails bad msg = (\<lambda>op. if op = bad then Some msg else None)"

subsection \<open>The homing runner\<close>

text \<open>
  The state of one run: the arguments of every \<^verbatim>\<open>finished.emit\<close> so far, and the
  device operations performed so far, both in order.
\<close>

record runner =
  emitted :: "string list"
  calls :: "dev_op list"

definition runner0 :: runner where
  "runner0 = \<lparr>emitted = [], calls = []\<rparr>"

definition emit :: "string \<Rightarrow> runner \<Rightarrow> runner" where
  "emit msg r = r\<lparr>emitted := emitted r @ [msg]\<rparr>"

text \<open>A device operation inside the runner: it is recorded, and its exception (if any)
  is returned beside the state.\<close>

definition dev_call :: "device \<Rightarrow> dev_op \<Rightarrow> runner \<Rightarrow> string option \<times> runner" where
  "dev_call dev op r = (dev op, r\<lparr>calls := calls r @ [op]\<rparr>)"

text \<open>The body of the first \<^verbatim>\<open>try\<close>: set the homing mode, then enable; the first
  exception leaves the block.\<close>

definition run_setup :: "device \<Rightarrow> runner \<Rightarrow> string option \<times> runner" where
  "run_setup dev r =
     (case dev_call dev (SetMode MODE_HOMING) r of
        (Some e, r1) \<Rightarrow> (Some e, r1)
      | (None, r1) \<Rightarrow> dev_call dev Enable r1)"

text \<open>The body of the second \<^verbatim>\<open>try\<close>: start homing, wait for it, emit
  \<^verbatim>\<open>'Finished'\<close>.\<close>

definition run_homing :: "device \<Rightarrow> nat \<Rightarrow> runner \<Rightarrow> string option \<times> runner" where
  "run_homing dev timeout r =
     (case dev_call dev HomingStart r of
        (Some e, r1) \<Rightarrow> (Some e, r1)
      | (None, r1) \<Rightarrow>
          (case dev_call dev (HomingWait timeout) r1 of
             (Some e, r2) \<Rightarrow> (Some e, r2)
           | (None, r2) \<Rightarrow> (None, emit ''Finished'' r2)))"

text \<open>The \<^verbatim>\<open>except Exception as exc\<close> clause of both blocks.\<close>

definition on_except :: "string option \<Rightarrow> runner \<Rightarrow> runner" where
  "on_except x r = (case x of None \<Rightarrow> r | Some e \<Rightarrow> emit (''Error: '' @ e) r)"

text \<open>
  \<^verbatim>\<open>HomingRunner.run\<close>: the first block with its handler, then the second block
  with its handler, then the \<^verbatim>\<open>finally\<close> clause. The handler of the first block
  does not return, so control reaches the second block whatever the first one did. The
  result is the exception that leaves \<^verbatim>\<open>run\<close> (only \<^verbatim>\<open>disable\<close> can raise
  one that is not caught) and the final state of the run.
\<close>

definition HomingRunner_run :: "device \<Rightarrow> nat \<Rightarrow> string option \<times> runner" where
  "HomingRunner_run dev timeout =
     (let (x1, r1) = run_setup dev runner0;
          r2 = on_except x1 r1;
          (x2, r3) = run_homing dev timeout r2;
          r4 = on_except x2 r3
      in dev_call dev Disable r4)"

subsection \<open>The window\<close>

datatype AxisState = stateInit | stateIdle | stateHoming | statePosition | stateVelocity

datatype register = POS_ACTUAL | VEL_ACTUAL

record poller =
  reg :: register
  running :: bool

datatype event =
    Dev dev_op
  | PollerNew register
  | PollerStart
  | PollerStop
  | TimerStart
  | TimerStop
  | ThreadStart

datatype exn = DeviceError string | AttributeError | ValueError

text \<open>
  The fields of \<^verbatim>\<open>ScopeWindow\<close> that the handlers read or write. \<open>poller\<close> is
  \<open>None\<close> until \<^verbatim>\<open>enableScope\<close> first assigns \<^verbatim>\<open>self._poller\<close>: the
  constructor does not create the attribute, and reading it then raises
  \<^verbatim>\<open>AttributeError\<close>. \<^verbatim>\<open>_data\<close> and \<^verbatim>\<open>_time\<close> are assigned by the same
  function right after \<^verbatim>\<open>_poller\<close>, and every handler that reads them reads
  \<^verbatim>\<open>_poller\<close> first, so they are plain lists here. NumPy's doubles are taken as
  reals. \<open>curve\<close> is the last pair handed to \<^verbatim>\<open>_curve.setData\<close>.

  Of the widgets, the window keeps what \<^verbatim>\<open>setState\<close> writes in the four states
  after \<^verbatim>\<open>stateInit\<close>: the \<^verbatim>\<open>setEnabled\<close> flag of the axis box, of the three
  tabs, of the homing button and of the two dials, the text of the two toggle buttons and
  the text of the homing status label. The settings of the plot are not kept.
\<close>

record window =
  state :: AxisState
  cboxAxes :: bool
  tabHoming :: bool
  btnHoming :: bool
  tabPosition :: bool
  dialPosition :: bool
  btnPosition :: string
  tabVelocity :: bool
  dialVelocity :: bool
  btnVelocity :: string
  lblHomingStatus :: string
  poller :: "poller option"
  data :: "real list"
  time :: "real list"
  timer_active :: bool
  curve :: "real list \<times> real list"
  trace :: "event list"

definition N_SAMPLES :: nat where
  "N_SAMPLES = 1000"

definition POLLER_T_S :: nat where
  "POLLER_T_S = 10"

definition HOMING_TIMEOUT :: nat where
  "HOMING_TIMEOUT = 150000"

text \<open>
  \<^verbatim>\<open>setState\<close>: the widget updates of the branch of the state, then the assignment
  of \<^verbatim>\<open>_state\<close>. The branch of \<^verbatim>\<open>stateInit\<close> loads the layout and sets up the
  dials and the plot; it writes none of the fields kept here.
\<close>

definition setState :: "AxisState \<Rightarrow> window \<Rightarrow> window" where
  "setState s w =
     (case s of
        stateInit \<Rightarrow> w
      | stateIdle \<Rightarrow>
          w\<lparr>cboxAxes := True, tabHoming := True, btnHoming := True,
            tabPosition := True, dialPosition := False, btnPosition := ''Enable'',
            tabVelocity := True, dialVelocity := False, btnVelocity := ''Enable''\<rparr>
      | stateHoming \<Rightarrow>
          w\<lparr>cboxAxes := False, tabPosition := False, tabVelocity := False,
            btnHoming := False, lblHomingStatus := ''Running...''\<rparr>
      | statePosition \<Rightarrow>
          w\<lparr>cboxAxes := False, tabHoming := False, tabVelocity := False,
            btnPosition := ''Disable'', dialPosition := True\<rparr>
      | stateVelocity \<Rightarrow>
          w\<lparr>cboxAxes := False, tabHoming := False, tabPosition := False,
            btnVelocity := ''Disable'', dialVelocity := True\<rparr>)\<lparr>state := s\<rparr>"

text \<open>
  The window when \<^verbatim>\<open>__init__\<close> returns: \<^verbatim>\<open>setState(stateInit)\<close> and
  \<^verbatim>\<open>setState(stateIdle)\<close> have run, the latter writing every widget field; the
  timer exists and is not started.
\<close>

definition init_window :: window where
  "init_window =
     \<lparr>state = stateIdle, cboxAxes = True, tabHoming = True, btnHoming = True,
      tabPosition = True, dialPosition = False, btnPosition = ''Enable'',
      tabVelocity = True, dialVelocity = False, btnVelocity = ''Enable'',
      lblHomingStatus = [], poller = None, data = [], time = [],
      timer_active = False, curve = ([], []), trace = []\<rparr>"

definition record_event :: "event \<Rightarrow> window \<Rightarrow> window" where
  "record_event e w = w\<lparr>trace := trace w @ [e]\<rparr>"

text \<open>A device operation inside a handler of the window.\<close>

definition axis_call :: "device \<Rightarrow> dev_op \<Rightarrow> window \<Rightarrow> exn option \<times> window" where
  "axis_call dev op w = (map_option DeviceError (dev op), record_event (Dev op) w)"

subsection \<open>NumPy operations on one-dimensional arrays\<close>

text \<open>\<^verbatim>\<open>np.arange(start, stop, step)\<close> for a positive step: \<open>\<lceil>(stop - start) / step\<rceil>\<close>
  values, the \<open>i\<close>-th being \<open>start + i * step\<close>.\<close>

definition arange :: "real \<Rightarrow> real \<Rightarrow> real \<Rightarrow> real list" where
  "arange start stop step =
     map (\<lambda>i. start + real i * step) [0..<nat \<lceil>(stop - start) / step\<rceil>]"

text \<open>\<^verbatim>\<open>np.roll(a, shift)\<close>: the element at index \<open>i\<close> moves to index
  \<open>(i + shift) mod n\<close>; a negative shift moves elements towards the front.\<close>

definition roll :: "'a list \<Rightarrow> int \<Rightarrow> 'a list" where
  "roll a shift = rotate (nat ((- shift) mod int (length a))) a"

text \<open>
  \<^verbatim>\<open>a[-k:] = v\<close> for \<open>k > 0\<close>: the slice is the last \<open>min k n\<close> elements of \<open>a\<close>.
  The assignment needs \<open>v\<close> to have the length of the slice, or length one (it is then
  broadcast); otherwise NumPy raises \<^verbatim>\<open>ValueError\<close>.
\<close>

definition assign_tail :: "'a list \<Rightarrow> nat \<Rightarrow> 'a list \<Rightarrow> exn + 'a list" where
  "assign_tail a k v =
     (let m = min k (length a) in
      if length v = m then Inr (take (length a - m) a @ v)
      else if length v = 1 then Inr (take (length a - m) a @ replicate m (hd v))
      else Inl ValueError)"

subsection \<open>The scope: poller, buffer and plot timer\<close>

text \<open>
  \<^verbatim>\<open>enableScope\<close>: create the poller, prime the buffer, start the timer, start the
  poller, in this order. The constructor and the methods of the poller and of the timer
  are taken not to raise.
\<close>

definition enableScope :: "register \<Rightarrow> window \<Rightarrow> window" where
  "enableScope rg w =
     (let w1 = record_event (PollerNew rg) (w\<lparr>poller := Some \<lparr>reg = rg, running = False\<rparr>\<rparr>);
          w2 = w1\<lparr>data := replicate N_SAMPLES 0\<rparr>;
          w3 = w2\<lparr>time := arange (- (real N_SAMPLES * real POLLER_T_S / 1000)) 0
                              (real POLLER_T_S / 1000)\<rparr>;
          w4 = record_event TimerStart (w3\<lparr>timer_active := True\<rparr>)
      in record_event PollerStart (w4\<lparr>poller := Some \<lparr>reg = rg, running = True\<rparr>\<rparr>))"

text \<open>\<^verbatim>\<open>disableScope\<close>: stop the poller, then stop the timer.\<close>

definition disableScope :: "window \<Rightarrow> exn option \<times> window" where
  "disableScope w =
     (case poller w of
        None \<Rightarrow> (Some AttributeError, w)
      | Some p \<Rightarrow>
          (let w1 = record_event PollerStop (w\<lparr>poller := Some (p\<lparr>running := False\<rparr>)\<rparr>)
           in (None, record_event TimerStop (w1\<lparr>timer_active := False\<rparr>))))"

text \<open>
  \<^verbatim>\<open>on_timerPlotUpdate_expired\<close>. The pair \<open>(t, d)\<close> is what
  \<^verbatim>\<open>self._poller.data\<close> returns at this tick. Each array is rolled and stored
  before its tail is assigned, so a failing assignment leaves the rolled array behind.
\<close>

definition on_timerPlotUpdate_expired ::
    "real list \<times> real list \<Rightarrow> window \<Rightarrow> exn option \<times> window" where
  "on_timerPlotUpdate_expired td w =
     (case poller w of
        None \<Rightarrow> (Some AttributeError, w)
      | Some p \<Rightarrow>
          (let t = fst td; d = snd td; samples = length d in
           if samples \<noteq> 0 then
             (let w1 = w\<lparr>data := roll (data w) (- int samples)\<rparr> in
              case assign_tail (data w1) samples d of
                Inl e \<Rightarrow> (Some e, w1)
              | Inr dd \<Rightarrow>
                  (let w2 = w1\<lparr>data := dd\<rparr>;
                       w3 = w2\<lparr>time := roll (time w2) (- int samples)\<rparr> in
                   case assign_tail (time w3) samples t of
                     Inl e \<Rightarrow> (Some e, w3)
                   | Inr tt \<Rightarrow>
                       (let w4 = w3\<lparr>time := tt\<rparr>
                        in (None, w4\<lparr>curve := (time w4, data w4)\<rparr>))))
           else (None, w)))"

text \<open>A run of ticks, one drained batch per tick; an exception ends the run.\<close>

fun ticks :: "(real list \<times> real list) list \<Rightarrow> window \<Rightarrow> exn option \<times> window" where
  "ticks [] w = (None, w)"
| "ticks (td # tds) w =
     (case on_timerPlotUpdate_expired td w of
        (Some e, w') \<Rightarrow> (Some e, w')
      | (None, w') \<Rightarrow> ticks tds w')"

subsection \<open>The handlers that change the axis state\<close>

definition onHomingFinished :: "string \<Rightarrow> window \<Rightarrow> window" where
  "onHomingFinished result w = setState stateIdle (w\<lparr>lblHomingStatus := result\<rparr>)"

text \<open>\<^verbatim>\<open>on_btnHoming_clicked\<close>: enter the homing state and start the thread that
  executes \<^verbatim>\<open>HomingRunner.run\<close>. The handler performs no device operation itself.\<close>

definition on_btnHoming_clicked :: "window \<Rightarrow> window" where
  "on_btnHoming_clicked w = record_event ThreadStart (setState stateHoming w)"

definition on_btnPosition_clicked :: "device \<Rightarrow> window \<Rightarrow> exn option \<times> window" where
  "on_btnPosition_clicked dev w =
     (if state w = stateIdle then
        (case axis_call dev (SetMode MODE_PP) w of
           (Some e, w1) \<Rightarrow> (Some e, w1)
         | (None, w1) \<Rightarrow>
             (case axis_call dev SetUnitsPos w1 of
                (Some e, w2) \<Rightarrow> (Some e, w2)
              | (None, w2) \<Rightarrow>
                  (case axis_call dev Enable w2 of
                     (Some e, w3) \<Rightarrow> (Some e, w3)
                   | (None, w3) \<Rightarrow>
                       (None, setState statePosition (enableScope POS_ACTUAL w3)))))
      else
        (case disableScope w of
           (Some e, w1) \<Rightarrow> (Some e, w1)
         | (None, w1) \<Rightarrow>
             (case axis_call dev Disable w1 of
                (Some e, w2) \<Rightarrow> (Some e, w2)
              | (None, w2) \<Rightarrow> (None, setState stateIdle w2))))"

definition on_btnVelocity_clicked :: "device \<Rightarrow> window \<Rightarrow> exn option \<times> window" where
  "on_btnVelocity_clicked dev w =
     (if state w = stateIdle then
        (case axis_call dev (SetMode MODE_PV) w of
           (Some e, w1) \<Rightarrow> (Some e, w1)
         | (None, w1) \<Rightarrow>
             (case axis_call dev SetUnitsVel w1 of
                (Some e, w2) \<Rightarrow> (Some e, w2)
              | (None, w2) \<Rightarrow>
                  (case axis_call dev Enable w2 of
                     (Some e, w3) \<Rightarrow> (Some e, w3)
                   | (None, w3) \<Rightarrow>
                       (None, setState stateVelocity (enableScope VEL_ACTUAL w3)))))
      else
        (case disableScope w of
           (Some e, w1) \<Rightarrow> (Some e, w1)
         | (None, w1) \<Rightarrow>
             (case axis_call dev Disable w1 of
                (Some e, w2) \<Rightarrow> (Some e, w2)
              | (None, w2) \<Rightarrow> (None, setState stateIdle w2))))"

subsection \<open>Commands and runs\<close>

text \<open>
  The four commands that change the axis state, each with the handler that serves it:
  \<^verbatim>\<open>on_btnHoming_clicked\<close>, \<^verbatim>\<open>on_btnPosition_clicked\<close>,
  \<^verbatim>\<open>on_btnVelocity_clicked\<close> and the slot \<^verbatim>\<open>onHomingFinished\<close> with the
  string it receives.
\<close>

datatype command = RequestHoming | TogglePC | ToggleVC | OnHomingComplete string

definition handle :: "device \<Rightarrow> command \<Rightarrow> window \<Rightarrow> exn option \<times> window" where
  "handle dev c w =
     (case c of
        RequestHoming \<Rightarrow> (None, on_btnHoming_clicked w)
      | TogglePC \<Rightarrow> on_btnPosition_clicked dev w
      | ToggleVC \<Rightarrow> on_btnVelocity_clicked dev w
      | OnHomingComplete r \<Rightarrow> (None, onHomingFinished r w))"

text \<open>
  Modelled from the spec: the layout file \<^verbatim>\<open>resources/ui/scopewindow.ui\<close>, which
  declares the widgets and their nesting, is not among the sources. Following the names
  of the widgets and the specification (entering the homing state disables the
  telemetry tabs, so that their requests are rejected), each of the three buttons lies on
  the tab of its name, and the layout disables no widget. Qt delivers a click to a button
  only while the button and the widgets around it are enabled. The slot
  \<^verbatim>\<open>onHomingFinished\<close> is called by a signal of the runner, whatever the widgets
  are.
\<close>

definition reaches_handler :: "command \<Rightarrow> window \<Rightarrow> bool" where
  "reaches_handler c w =
     (case c of
        RequestHoming \<Rightarrow> tabHoming w \<and> btnHoming w
      | TogglePC \<Rightarrow> tabPosition w
      | ToggleVC \<Rightarrow> tabVelocity w
      | OnHomingComplete r \<Rightarrow> True)"

text \<open>A command issued to the window: its handler runs if the command reaches it, and
  nothing happens otherwise.\<close>

definition issue :: "device \<Rightarrow> command \<Rightarrow> window \<Rightarrow> exn option \<times> window" where
  "issue dev c w = (if reaches_handler c w then handle dev c w else (None, w))"

text \<open>A sequence of commands, issued one after the other. No handler catches an
  exception; the run ends at the first one that leaves a handler.\<close>

fun exec :: "device \<Rightarrow> command list \<Rightarrow> window \<Rightarrow> exn option \<times> window" where
  "exec dev [] w = (None, w)"
| "exec dev (c # cs) w =
     (case issue dev c w of
        (Some e, w') \<Rightarrow> (Some e, w')
      | (None, w') \<Rightarrow> exec dev cs w')"

text \<open>
  One homing run, from the click to the last delivery: the handler of the button, the
  run of the runner in its thread, and one call of \<^verbatim>\<open>onHomingFinished\<close> for each
  emission of \<^verbatim>\<open>finished\<close>, in the order of emission (the connection is queued).
\<close>

definition homing_session :: "device \<Rightarrow> window \<Rightarrow> runner \<times> window" where
  "homing_session dev w =
     (let w1 = on_btnHoming_clicked w;
          r = snd (HomingRunner_run dev HOMING_TIMEOUT)
      in (r, foldl (\<lambda>w' msg. onHomingFinished msg w') w1 (emitted r)))"

text \<open>Is an emitted string a failure report?\<close>

definition is_failed :: "string \<Rightarrow> bool" where
  "is_failed msg = (take 7 msg = ''Error: '')"

subsection \<open>The transition table of the specification\<close>

text \<open>The table of section 4.1 of the specification, as written there: \<open>None\<close> where
  the table has a dash.\<close>

fun spec_table :: "AxisState \<Rightarrow> command \<Rightarrow> AxisState option" where
  "spec_table stateIdle RequestHoming = Some stateHoming"
| "spec_table stateIdle TogglePC = Some statePosition"
| "spec_table stateIdle ToggleVC = Some stateVelocity"
| "spec_table stateHoming (OnHomingComplete r) = Some stateIdle"
| "spec_table statePosition TogglePC = Some stateIdle"
| "spec_table stateVelocity ToggleVC = Some stateIdle"
| "spec_table s c = None"

text \<open>One step of the fold of the table: a pair without an entry leaves the state.\<close>

definition spec_step :: "AxisState \<Rightarrow> command \<Rightarrow> AxisState" where
  "spec_step s c = (case spec_table s c of Some s' \<Rightarrow> s' | None \<Rightarrow> s)"

text \<open>A homing completion that arrives while the table is in one of the two control
  states.\<close>

definition stray_completion :: "AxisState \<Rightarrow> command \<Rightarrow> bool" where
  "stray_completion s c =
     (case c of
        OnHomingComplete r \<Rightarrow> s = statePosition \<or> s = stateVelocity
      | _ \<Rightarrow> False)"

text \<open>A sequence, read along the table from the state \<open>s\<close>, without such a completion.\<close>

fun no_stray_completion :: "AxisState \<Rightarrow> command list \<Rightarrow> bool" where
  "no_stray_completion s [] = True"
| "no_stray_completion s (c # cs) =
     (\<not> stray_completion s c \<and> no_stray_completion (spec_step s c) cs)"

text \<open>
  What \<^verbatim>\<open>setState\<close> has done to the buttons and tabs when a handler has returned,
  state by state, and that a poller exists in the two control states.
\<close>

definition widgets_match :: "window \<Rightarrow> bool" where
  "widgets_match w =
     (case state w of
        stateInit \<Rightarrow> False
      | stateIdle \<Rightarrow> tabHoming w \<and> btnHoming w \<and> tabPosition w \<and> tabVelocity w
      | stateHoming \<Rightarrow> \<not> btnHoming w \<and> \<not> tabPosition w \<and> \<not> tabVelocity w
      | statePosition \<Rightarrow>
          \<not> tabHoming w \<and> tabPosition w \<and> \<not> tabVelocity w \<and> poller w \<noteq> None
      | stateVelocity \<Rightarrow>
          \<not> tabHoming w \<and> \<not> tabPosition w \<and> tabVelocity w \<and> poller w \<noteq> None)"

subsection \<open>Replaying a log\<close>




definition poller_running :: "window \<Rightarrow> bool" where
  "poller_running w = (case poller w of None \<Rightarrow> False | Some p \<Rightarrow> running p)"

text \<open>The device operations that the two toggle handlers perform.\<close>

definition toggle_ops :: "dev_op list" where
  "toggle_ops = [SetMode MODE_PP, SetUnitsPos, SetMode MODE_PV, SetUnitsVel, Enable, Disable]"

section \<open>The homing runner\<close>

lemmas run_defs = HomingRunner_run_def run_setup_def run_homing_def dev_call_def
  on_except_def emit_def runner0_def

text \<open>Facts about every run, whatever the device does.\<close>

lemma run_calls_disable_once: "count_list (calls (snd (HomingRunner_run dev t))) Disable = 1"
  by (auto simp: run_defs Let_def split: option.splits prod.splits)

lemma run_emitted_nonempty: "emitted (snd (HomingRunner_run dev t)) \<noteq> []"
  by (auto simp: run_defs Let_def split: option.splits prod.splits)

lemma run_emitted_count:
  "length (emitted (snd (HomingRunner_run dev t))) =
     (if dev (SetMode MODE_HOMING) = None \<and> dev Enable = None then 1 else 2)"
  by (auto simp: run_defs Let_def split: option.splits prod.splits)

lemma run_always_starts_homing: "HomingStart \<in> set (calls (snd (HomingRunner_run dev t)))"
  by (auto simp: run_defs Let_def split: option.splits prod.splits)

lemma state_onHomingFinished [simp]: "state (onHomingFinished r w) = stateIdle"
  by (simp add: onHomingFinished_def setState_def)

lemma trace_onHomingFinished [simp]: "trace (onHomingFinished r w) = trace w"
  by (simp add: onHomingFinished_def setState_def)

lemma deliveries_state:
  "ms \<noteq> [] \<Longrightarrow> state (foldl (\<lambda>w' msg. onHomingFinished msg w') w ms) = stateIdle"
  by (induction ms arbitrary: w rule: rev_induct) simp_all

lemma deliveries_trace: "trace (foldl (\<lambda>w' msg. onHomingFinished msg w') w ms) = trace w"
  by (induction ms arbitrary: w rule: rev_induct) simp_all

lemma trace_on_btnHoming_clicked: "trace (on_btnHoming_clicked w) = trace w @ [ThreadStart]"
  by (simp add: on_btnHoming_clicked_def record_event_def setState_def)

text \<open>
  Claim C1. Every homing run started by \<^verbatim>\<open>on_btnHoming_clicked\<close> is said to deliver
  exactly one outcome to \<^verbatim>\<open>onHomingFinished\<close>, whatever succeeds or fails. The
  code does not: when \<^verbatim>\<open>enable\<close> raises, the handler of the first block emits
  \<^verbatim>\<open>'Error: ...'\<close> and control goes on to the second block, which emits again.
  With a device whose \<^verbatim>\<open>enable\<close> raises \<^verbatim>\<open>boom\<close> and which otherwise works,
  the run started from the initial window emits two outcomes.
\<close>

theorem homing_setup_failure_emits_twice:
  "emitted (fst (homing_session (dev_fails Enable ''boom'') init_window)) =
     [''Error: boom'', ''Finished'']"
  by (simp add: homing_session_def run_defs dev_fails_def)

text \<open>
  Claim C3. When the setup step fails, the worker is said to report the failure and exit
  without calling \<^verbatim>\<open>homing_start\<close> or \<^verbatim>\<open>homing_wait\<close>. The code calls both:
  with a device whose mode assignment raises, the run still performs
  \<^verbatim>\<open>homing_start\<close> and \<^verbatim>\<open>homing_wait\<close> before the final \<^verbatim>\<open>disable\<close>.
\<close>

theorem homing_setup_failure_still_starts_homing:
  "calls (snd (HomingRunner_run (dev_fails (SetMode MODE_HOMING) ''no link'') HOMING_TIMEOUT)) =
     [SetMode MODE_HOMING, HomingStart, HomingWait HOMING_TIMEOUT, Disable]"
  by (simp add: run_defs dev_fails_def)

text \<open>
  Claim C5. In a homing run in which the worker reports a failure, the window ends in
  the idle state and \<^verbatim>\<open>disable\<close> is called exactly once over the whole run: once by
  the runner (its \<^verbatim>\<open>finally\<close> clause), and not at all by the handlers of the window
  that serve the run.
\<close>

theorem failed_homing_disables_once:
  assumes "list_ex is_failed (emitted (fst (homing_session dev w)))"
  shows "state (snd (homing_session dev w)) = stateIdle
       \<and> count_list (calls (fst (homing_session dev w))) Disable = 1
       \<and> count_list (trace (snd (homing_session dev w))) (Dev Disable) =
           count_list (trace w) (Dev Disable)"
  by (simp add: homing_session_def Let_def deliveries_state deliveries_trace
        run_emitted_nonempty run_calls_disable_once trace_on_btnHoming_clicked)

text \<open>The scenario of the specification: the wait times out.\<close>

theorem failed_homing_disables_once_witness:
  "list_ex is_failed
     (emitted (fst (homing_session (dev_fails (HomingWait HOMING_TIMEOUT) ''timeout'')
        init_window)))
   \<and> emitted (fst (homing_session (dev_fails (HomingWait HOMING_TIMEOUT) ''timeout'')
        init_window)) = [''Error: timeout'']
   \<and> state (snd (homing_session (dev_fails (HomingWait HOMING_TIMEOUT) ''timeout'')
        init_window)) = stateIdle
   \<and> count_list (calls (fst (homing_session (dev_fails (HomingWait HOMING_TIMEOUT) ''timeout'')
        init_window))) Disable = 1
   \<and> count_list (trace (snd (homing_session (dev_fails (HomingWait HOMING_TIMEOUT) ''timeout'')
        init_window))) (Dev Disable) = 0"
proof -
  have e: "emitted (fst (homing_session (dev_fails (HomingWait HOMING_TIMEOUT) ''timeout'')
      init_window)) = [''Error: timeout'']"
    by (simp add: homing_session_def run_defs dev_fails_def)
  have h: "list_ex is_failed (emitted (fst (homing_session
      (dev_fails (HomingWait HOMING_TIMEOUT) ''timeout'') init_window)))"
    by (simp add: e is_failed_def)
  have l: "trace init_window = []"
    by (simp add: init_window_def)
  from failed_homing_disables_once [OF h] h e l show ?thesis
    by simp
qed

section \<open>The scope and the toggle handlers\<close>

lemma state_setState [simp]: "state (setState s w) = s"
  by (cases s) (simp_all add: setState_def)

lemma poller_setState [simp]: "poller (setState s w) = poller w"
  by (cases s) (simp_all add: setState_def)

lemma timer_setState [simp]: "timer_active (setState s w) = timer_active w"
  by (cases s) (simp_all add: setState_def)

lemma trace_setState [simp]: "trace (setState s w) = trace w"
  by (cases s) (simp_all add: setState_def)

lemma state_enableScope [simp]: "state (enableScope rg w) = state w"
  by (simp add: enableScope_def record_event_def Let_def)

lemma widgets_enableScope [simp]:
  "tabHoming (enableScope rg w) = tabHoming w"
  "btnHoming (enableScope rg w) = btnHoming w"
  "tabPosition (enableScope rg w) = tabPosition w"
  "tabVelocity (enableScope rg w) = tabVelocity w"
  by (simp_all add: enableScope_def record_event_def Let_def)

lemma lbl_enableScope [simp]: "lblHomingStatus (enableScope rg w) = lblHomingStatus w"
  by (simp add: enableScope_def record_event_def Let_def)

lemma poller_enableScope [simp]:
  "poller (enableScope rg w) = Some \<lparr>reg = rg, running = True\<rparr>"
  by (simp add: enableScope_def record_event_def Let_def)

lemma timer_enableScope [simp]: "timer_active (enableScope rg w)"
  by (simp add: enableScope_def record_event_def Let_def)

lemma trace_enableScope [simp]:
  "trace (enableScope rg w) = trace w @ [PollerNew rg, TimerStart, PollerStart]"
  by (simp add: enableScope_def record_event_def Let_def)

lemma data_enableScope: "data (enableScope rg w) = replicate N_SAMPLES 0"
  by (simp add: enableScope_def record_event_def Let_def)

lemma time_enableScope:
  "time (enableScope rg w) =
     arange (- (real N_SAMPLES * real POLLER_T_S / 1000)) 0 (real POLLER_T_S / 1000)"
  by (simp add: enableScope_def record_event_def Let_def)

lemma disableScope_no_poller:
  "poller w = None \<Longrightarrow> disableScope w = (Some AttributeError, w)"
  by (simp add: disableScope_def)

lemma disableScope_poller:
  "poller w = Some p \<Longrightarrow>
   disableScope w =
     (None, w\<lparr>poller := Some (p\<lparr>running := False\<rparr>), timer_active := False,
              trace := trace w @ [PollerStop, TimerStop]\<rparr>)"
  by (simp add: disableScope_def record_event_def Let_def)

text \<open>The disable path of a toggle when a poller exists and the device does not fail.\<close>

lemma position_disable_ok:
  assumes "state w \<noteq> stateIdle" "poller w = Some p" "dev Disable = None"
  shows "on_btnPosition_clicked dev w =
     (None, setState stateIdle
              (w\<lparr>poller := Some (p\<lparr>running := False\<rparr>), timer_active := False,
                 trace := trace w @ [PollerStop, TimerStop, Dev Disable]\<rparr>))"
  using assms
  by (simp add: on_btnPosition_clicked_def disableScope_poller axis_call_def record_event_def)

lemma velocity_disable_ok:
  assumes "state w \<noteq> stateIdle" "poller w = Some p" "dev Disable = None"
  shows "on_btnVelocity_clicked dev w =
     (None, setState stateIdle
              (w\<lparr>poller := Some (p\<lparr>running := False\<rparr>), timer_active := False,
                 trace := trace w @ [PollerStop, TimerStop, Dev Disable]\<rparr>))"
  using assms
  by (simp add: on_btnVelocity_clicked_def disableScope_poller axis_call_def record_event_def)

lemmas exec_defs = issue_def reaches_handler_def handle_def on_btnPosition_clicked_def
  on_btnVelocity_clicked_def on_btnHoming_clicked_def onHomingFinished_def axis_call_def
  setState_def record_event_def disableScope_def dev_ok_def init_window_def

section \<open>Command sequences and the transition table\<close>

text \<open>The enable path of each toggle, with the window it returns.\<close>

lemma position_enable_eq:
  assumes "state w = stateIdle" "dev (SetMode MODE_PP) = None" "dev SetUnitsPos = None"
    "dev Enable = None"
  shows "on_btnPosition_clicked dev w =
     (None, setState statePosition (enableScope POS_ACTUAL
        (w\<lparr>trace := trace w @ [Dev (SetMode MODE_PP), Dev SetUnitsPos, Dev Enable]\<rparr>)))"
  using assms by (simp add: on_btnPosition_clicked_def axis_call_def record_event_def)

lemma velocity_enable_eq:
  assumes "state w = stateIdle" "dev (SetMode MODE_PV) = None" "dev SetUnitsVel = None"
    "dev Enable = None"
  shows "on_btnVelocity_clicked dev w =
     (None, setState stateVelocity (enableScope VEL_ACTUAL
        (w\<lparr>trace := trace w @ [Dev (SetMode MODE_PV), Dev SetUnitsVel, Dev Enable]\<rparr>)))"
  using assms by (simp add: on_btnVelocity_clicked_def axis_call_def record_event_def)

text \<open>
  The widgets as \<^verbatim>\<open>setState\<close> leaves them hold initially and after every command
  the window serves, as long as the device does not fail in a toggle and no completion
  arrives in a control state. With them, a command is served as the table says: where the
  table has no entry, a click does not reach its handler, and a completion that arrives
  in the idle state sets the idle state again.
\<close>

lemma widgets_match_init: "widgets_match init_window"
  by (simp add: widgets_match_def init_window_def)

lemma issue_homing:
  assumes "widgets_match w"
  shows "\<exists>w'. issue dev RequestHoming w = (None, w')
           \<and> state w' = spec_step (state w) RequestHoming \<and> widgets_match w'"
  using assms
  by (cases "state w")
    (auto simp: issue_def reaches_handler_def handle_def on_btnHoming_clicked_def
       record_event_def setState_def widgets_match_def spec_step_def)

lemma issue_completion:
  assumes "widgets_match w" and "\<not> stray_completion (state w) (OnHomingComplete r)"
  shows "\<exists>w'. issue dev (OnHomingComplete r) w = (None, w')
           \<and> state w' = spec_step (state w) (OnHomingComplete r) \<and> widgets_match w'"
  using assms
  by (cases "state w")
    (auto simp: issue_def reaches_handler_def handle_def onHomingFinished_def
       setState_def widgets_match_def spec_step_def stray_completion_def)

lemma issue_position:
  assumes ok: "list_all (\<lambda>op. dev op = None) toggle_ops" and wm: "widgets_match w"
  shows "\<exists>w'. issue dev TogglePC w = (None, w')
           \<and> state w' = spec_step (state w) TogglePC \<and> widgets_match w'"
proof (cases "state w")
  case stateInit
  with wm show ?thesis by (simp add: widgets_match_def)
next
  case stateIdle
  with ok have "on_btnPosition_clicked dev w =
     (None, setState statePosition (enableScope POS_ACTUAL
        (w\<lparr>trace := trace w @ [Dev (SetMode MODE_PP), Dev SetUnitsPos, Dev Enable]\<rparr>)))"
    by (intro position_enable_eq) (simp_all add: toggle_ops_def)
  with stateIdle wm show ?thesis
    by (simp add: issue_def reaches_handler_def handle_def widgets_match_def spec_step_def
        setState_def)
next
  case stateHoming
  with wm show ?thesis
    by (simp add: issue_def reaches_handler_def widgets_match_def spec_step_def)
next
  case statePosition
  with wm obtain p where p: "poller w = Some p"
    by (auto simp: widgets_match_def)
  from ok have "dev Disable = None"
    by (simp add: toggle_ops_def)
  with statePosition p position_disable_ok [of w p dev] wm show ?thesis
    by (simp add: issue_def reaches_handler_def handle_def widgets_match_def spec_step_def
        setState_def)
next
  case stateVelocity
  with wm show ?thesis
    by (simp add: issue_def reaches_handler_def widgets_match_def spec_step_def)
qed

lemma issue_velocity:
  assumes ok: "list_all (\<lambda>op. dev op = None) toggle_ops" and wm: "widgets_match w"
  shows "\<exists>w'. issue dev ToggleVC w = (None, w')
           \<and> state w' = spec_step (state w) ToggleVC \<and> widgets_match w'"
proof (cases "state w")
  case stateInit
  with wm show ?thesis by (simp add: widgets_match_def)
next
  case stateIdle
  with ok have "on_btnVelocity_clicked dev w =
     (None, setState stateVelocity (enableScope VEL_ACTUAL
        (w\<lparr>trace := trace w @ [Dev (SetMode MODE_PV), Dev SetUnitsVel, Dev Enable]\<rparr>)))"
    by (intro velocity_enable_eq) (simp_all add: toggle_ops_def)
  with stateIdle wm show ?thesis
    by (simp add: issue_def reaches_handler_def handle_def widgets_match_def spec_step_def
        setState_def)
next
  case stateHoming
  with wm show ?thesis
    by (simp add: issue_def reaches_handler_def widgets_match_def spec_step_def)
next
  case statePosition
  with wm show ?thesis
    by (simp add: issue_def reaches_handler_def widgets_match_def spec_step_def)
next
  case stateVelocity
  with wm obtain p where p: "poller w = Some p"
    by (auto simp: widgets_match_def)
  from ok have "dev Disable = None"
    by (simp add: toggle_ops_def)
  with stateVelocity p velocity_disable_ok [of w p dev] wm show ?thesis
    by (simp add: issue_def reaches_handler_def handle_def widgets_match_def spec_step_def
        setState_def)
qed

lemma issue_follows_table:
  assumes "list_all (\<lambda>op. dev op = None) toggle_ops" and "widgets_match w"
    and "\<not> stray_completion (state w) c"
  shows "\<exists>w'. issue dev c w = (None, w')
           \<and> state w' = spec_step (state w) c \<and> widgets_match w'"
  using assms issue_homing issue_position issue_velocity issue_completion
  by (cases c) blast+

lemma exec_follows_table:
  assumes ok: "list_all (\<lambda>op. dev op = None) toggle_ops"
  shows "widgets_match w \<Longrightarrow> no_stray_completion (state w) cmds \<Longrightarrow>
         \<exists>w'. exec dev cmds w = (None, w') \<and> state w' = foldl spec_step (state w) cmds"
proof (induction cmds arbitrary: w)
  case Nil
  then show ?case by simp
next
  case (Cons c cs)
  from Cons.prems(2) have ns: "\<not> stray_completion (state w) c"
    and rest: "no_stray_completion (spec_step (state w) c) cs"
    by simp_all
  from issue_follows_table [OF ok Cons.prems(1) ns] obtain w1 where
    h: "issue dev c w = (None, w1)" and s: "state w1 = spec_step (state w) c"
    and wm: "widgets_match w1"
    by blast
  from Cons.IH [OF wm] rest s obtain w' where
    "exec dev cs w1 = (None, w')" "state w' = foldl spec_step (spec_step (state w) c) cs"
    by auto
  with h show ?case by simp
qed

lemma no_stray_completion_take:
  "no_stray_completion s cmds \<Longrightarrow> no_stray_completion s (take n cmds)"
proof (induction cmds arbitrary: s n)
  case Nil
  then show ?case by simp
next
  case (Cons c cs)
  then show ?case by (cases n) simp_all
qed

text \<open>
  Claim C2, as stated: after every sequence of commands the state is the fold of the
  table, a command without an entry leaving the state unchanged. Two runs where it is
  not. First, a homing run whose mode assignment raises emits two outcomes; the first
  delivery returns the window to the idle state, a click on the position toggle then
  enters the position state, and the second delivery, for which the table has no entry
  there, sets the idle state. Second, a position toggle whose \<^verbatim>\<open>enable\<close> raises
  leaves the window in the idle state, where the table moves to the position state.
\<close>

theorem late_completion_leaves_position:
  "emitted (snd (HomingRunner_run (dev_fails (SetMode MODE_HOMING) ''no link'') HOMING_TIMEOUT)) =
     [''Error: no link'', ''Finished'']
   \<and> state (snd (exec (dev_fails (SetMode MODE_HOMING) ''no link'')
        [RequestHoming, OnHomingComplete ''Error: no link'', TogglePC,
         OnHomingComplete ''Finished''] init_window)) = stateIdle
   \<and> foldl spec_step stateIdle
        [RequestHoming, OnHomingComplete ''Error: no link'', TogglePC,
         OnHomingComplete ''Finished''] = statePosition
   \<and> state (snd (exec (dev_fails Enable ''fault'') [TogglePC] init_window)) = stateIdle
   \<and> foldl spec_step stateIdle [TogglePC] = statePosition"
  by (simp add: run_defs exec_defs dev_fails_def spec_step_def)

text \<open>
  Claim C2, amended: for every sequence of commands in which no homing completion
  arrives while the table is in the position or the velocity state, and with a device
  whose operations in the toggle handlers do not raise, every prefix is served without
  an exception and the state after it is the fold of the table over the prefix, starting
  from the idle state of the initial window. So a command without an entry in the table
  leaves the state unchanged; in particular a homing request in the position state is
  rejected.
\<close>

theorem commands_follow_table:
  assumes "no_stray_completion stateIdle cmds" and "list_all (\<lambda>op. dev op = None) toggle_ops"
  shows "\<exists>w. exec dev (take n cmds) init_window = (None, w)
           \<and> state w = foldl spec_step stateIdle (take n cmds)"
proof -
  have "no_stray_completion (state init_window) (take n cmds)"
    using assms(1) by (simp add: no_stray_completion_take init_window_def)
  with exec_follows_table [OF assms(2) widgets_match_init] show ?thesis
    by (simp add: init_window_def)
qed

text \<open>A sequence with five commands that the table has no entry for; its first two
  commands are the scenario of the specification.\<close>

theorem commands_follow_table_witness:
  "no_stray_completion stateIdle
     [TogglePC, RequestHoming, ToggleVC, TogglePC, RequestHoming, ToggleVC,
      OnHomingComplete ''Finished'', OnHomingComplete ''Finished'']
   \<and> list_all (\<lambda>op. dev_ok op = None) toggle_ops
   \<and> (\<exists>w. exec dev_ok [TogglePC, RequestHoming] init_window = (None, w)
           \<and> state w = statePosition)"
proof -
  have l: "no_stray_completion stateIdle
     [TogglePC, RequestHoming, ToggleVC, TogglePC, RequestHoming, ToggleVC,
      OnHomingComplete ''Finished'', OnHomingComplete ''Finished'']"
    by (simp add: spec_step_def stray_completion_def)
  have d: "list_all (\<lambda>op. dev_ok op = None) toggle_ops"
    by (simp add: dev_ok_def toggle_ops_def)
  have f: "foldl spec_step stateIdle [TogglePC, RequestHoming] = statePosition"
    by (simp add: spec_step_def)
  from commands_follow_table [OF l d, of 2] l d f show ?thesis
    by simp
qed

section \<open>The completion handler\<close>

text \<open>
  Claim C4, as stated: \<^verbatim>\<open>onHomingFinished\<close> is ignored when the state is not the
  homing state, and leaves the state and the recorded outcome as they are. The slot has
  no such guard. In the position state, reached by one position toggle, it overwrites
  the status label and moves the window to the idle state.
\<close>

theorem completion_outside_homing_not_ignored:
  "state (snd (exec dev_ok [TogglePC] init_window)) = statePosition
   \<and> state (onHomingFinished ''Finished'' (snd (exec dev_ok [TogglePC] init_window))) = stateIdle
   \<and> lblHomingStatus (snd (exec dev_ok [TogglePC] init_window)) = []
   \<and> lblHomingStatus (onHomingFinished ''Finished'' (snd (exec dev_ok [TogglePC] init_window))) =
       ''Finished''"
  by (simp add: exec_defs)

text \<open>
  Claim C4, amended: in every state \<^verbatim>\<open>onHomingFinished\<close> records the outcome it
  receives and sets the state to idle; delivering the same outcome twice in a row leaves
  the window as delivering it once does.
\<close>

theorem completion_unguarded_idempotent:
  "state (onHomingFinished r w) = stateIdle
   \<and> lblHomingStatus (onHomingFinished r w) = r
   \<and> onHomingFinished r (onHomingFinished r w) = onHomingFinished r w"
  by (simp add: onHomingFinished_def setState_def)

section \<open>Device failures in the toggle handlers\<close>

lemma position_failure:
  assumes "Dev op \<in> set (drop (length (trace w)) (trace (snd (on_btnPosition_clicked dev w))))"
    and "dev op = Some msg"
  shows "fst (on_btnPosition_clicked dev w) = Some (DeviceError msg)
       \<and> state (snd (on_btnPosition_clicked dev w)) = state w
       \<and> lblHomingStatus (snd (on_btnPosition_clicked dev w)) = lblHomingStatus w"
  using assms
  by (auto simp: on_btnPosition_clicked_def axis_call_def record_event_def setState_def
      disableScope_def Let_def split: if_splits option.splits)

lemma velocity_failure:
  assumes "Dev op \<in> set (drop (length (trace w)) (trace (snd (on_btnVelocity_clicked dev w))))"
    and "dev op = Some msg"
  shows "fst (on_btnVelocity_clicked dev w) = Some (DeviceError msg)
       \<and> state (snd (on_btnVelocity_clicked dev w)) = state w
       \<and> lblHomingStatus (snd (on_btnVelocity_clicked dev w)) = lblHomingStatus w"
  using assms
  by (auto simp: on_btnVelocity_clicked_def axis_call_def record_event_def setState_def
      disableScope_def Let_def split: if_splits option.splits)

text \<open>
  Claim C6, as stated: a device operation that fails during a toggle is caught by the
  handler and turned into a status message, and never leaves the handler as an
  exception. The handlers have no \<^verbatim>\<open>try\<close>: with a device whose \<^verbatim>\<open>enable\<close>
  raises, the position toggle in the initial window ends with that exception, after the
  mode and the units were set, and nothing of the window has changed.
\<close>

theorem toggle_enable_failure_uncaught:
  "on_btnPosition_clicked (dev_fails Enable ''fault'') init_window =
     (Some (DeviceError ''fault''),
      init_window\<lparr>trace := [Dev (SetMode MODE_PP), Dev SetUnitsPos, Dev Enable]\<rparr>)"
  by (simp add: on_btnPosition_clicked_def axis_call_def dev_fails_def init_window_def
      record_event_def)

text \<open>
  Claim C6, amended: when a device operation performed by a toggle handler raises, the
  exception leaves the handler as it is, no status message is written, and the state is
  the one before the handler ran (idle on the enable path, the prior state on the
  disable path).
\<close>

theorem toggle_device_failure_escapes:
  assumes "c = TogglePC \<or> c = ToggleVC"
    and "Dev op \<in> set (drop (length (trace w)) (trace (snd (handle dev c w))))"
    and "dev op = Some msg"
  shows "fst (handle dev c w) = Some (DeviceError msg)
       \<and> state (snd (handle dev c w)) = state w
       \<and> lblHomingStatus (snd (handle dev c w)) = lblHomingStatus w"
  using assms position_failure [of op w dev msg] velocity_failure [of op w dev msg]
  by (auto simp: handle_def)

text \<open>The disable path: a velocity toggle switches the scope on, and \<^verbatim>\<open>disable\<close>
  raises at the next one.\<close>

theorem toggle_device_failure_escapes_witness:
  "state (snd (exec dev_ok [ToggleVC] init_window)) = stateVelocity
   \<and> fst (handle (dev_fails Disable ''fault'') ToggleVC
          (snd (exec dev_ok [ToggleVC] init_window))) = Some (DeviceError ''fault'')
   \<and> state (snd (handle (dev_fails Disable ''fault'') ToggleVC
          (snd (exec dev_ok [ToggleVC] init_window)))) = stateVelocity"
proof -
  let ?w = "snd (exec dev_ok [ToggleVC] init_window)"
  let ?dev = "dev_fails Disable ''fault''"
  have s: "state ?w = stateVelocity"
    by (simp add: exec_defs)
  have h: "Dev Disable \<in> set (drop (length (trace ?w)) (trace (snd (handle ?dev ToggleVC ?w))))"
    by (simp add: exec_defs dev_fails_def)
  have f: "?dev Disable = Some ''fault''"
    by (simp add: dev_fails_def)
  from toggle_device_failure_escapes [of ToggleVC Disable ?w ?dev "''fault''", OF _ h f] s
  show ?thesis by simp
qed

section \<open>The order of the pump and the poller\<close>




section \<open>Toggles outside the idle state\<close>

text \<open>
  Claim C10, as stated: in every state but idle, the homing state included, a toggle
  handler stops the scope, disables the device and sets the state to idle. In the homing
  state entered from the initial window no poller has been created yet, and the handler
  ends in \<^verbatim>\<open>disableScope\<close> with an \<^verbatim>\<open>AttributeError\<close>: the window stays as it
  is, in the homing state.
\<close>

theorem toggle_in_first_homing_fails:
  "on_btnPosition_clicked dev_ok (on_btnHoming_clicked init_window) =
     (Some AttributeError, on_btnHoming_clicked init_window)
   \<and> state (on_btnHoming_clicked init_window) = stateHoming"
  by (simp add: on_btnPosition_clicked_def on_btnHoming_clicked_def setState_def
      record_event_def disableScope_def init_window_def)

text \<open>
  Claim C10, amended: the toggle handlers branch only on whether the state is idle. In
  every other state, once a poller has been created and provided \<^verbatim>\<open>disable\<close> does not
  raise, both handlers take the disable path and do the same: they stop the poller and
  the pump timer, disable the device and set the state to idle.
\<close>

theorem toggle_outside_idle_disables:
  assumes "state w \<noteq> stateIdle" and "poller w \<noteq> None" and "dev Disable = None"
  shows "\<exists>w'. on_btnPosition_clicked dev w = (None, w')
            \<and> on_btnVelocity_clicked dev w = (None, w')
            \<and> state w' = stateIdle \<and> \<not> timer_active w' \<and> \<not> poller_running w'
            \<and> trace w' = trace w @ [PollerStop, TimerStop, Dev Disable]"
proof -
  from assms(2) obtain p where p: "poller w = Some p" by auto
  show ?thesis
    using assms(1,3) p position_disable_ok [of w p dev] velocity_disable_ok [of w p dev]
    by (simp add: poller_running_def)
qed

text \<open>The homing state entered after a velocity session: the poller of that session
  is still there.\<close>

theorem toggle_outside_idle_disables_witness:
  "state (snd (exec dev_ok [ToggleVC, ToggleVC, RequestHoming] init_window)) = stateHoming
   \<and> (\<exists>w'. on_btnPosition_clicked dev_ok
              (snd (exec dev_ok [ToggleVC, ToggleVC, RequestHoming] init_window)) = (None, w')
         \<and> state w' = stateIdle \<and> \<not> timer_active w' \<and> \<not> poller_running w')"
proof -
  let ?w = "snd (exec dev_ok [ToggleVC, ToggleVC, RequestHoming] init_window)"
  have s: "state ?w = stateHoming"
    by (simp add: exec_defs)
  have p: "poller ?w \<noteq> None"
    by (simp add: exec_defs)
  have d: "dev_ok Disable = None"
    by (simp add: dev_ok_def)
  from toggle_outside_idle_disables [of ?w dev_ok, OF _ p d] s show ?thesis
    by auto
qed

section \<open>The sample buffer\<close>

lemma length_arange: "length (arange a b s) = nat \<lceil>(b - a) / s\<rceil>"
  by (simp add: arange_def)

lemma length_data_enableScope: "length (data (enableScope rg w)) = N_SAMPLES"
  by (simp add: data_enableScope)

lemma length_time_enableScope: "length (time (enableScope rg w)) = N_SAMPLES"
  by (simp add: time_enableScope length_arange N_SAMPLES_def POLLER_T_S_def)

lemma time_enableScope_negative: "list_all (\<lambda>x. x < 0) (time (enableScope rg w))"
  by (simp add: time_enableScope arange_def list_all_iff N_SAMPLES_def POLLER_T_S_def)

lemma length_roll [simp]: "length (roll a k) = length a"
  by (simp add: roll_def)

text \<open>Rolling by \<open>-m\<close> moves the first \<open>m\<close> elements behind the others.\<close>

lemma roll_left: "m \<le> length a \<Longrightarrow> roll a (- int m) = drop m a @ take m a"
proof (cases "m = length a")
  case True
  then show ?thesis by (simp add: roll_def)
next
  case False
  assume "m \<le> length a"
  with False have "m < length a" by simp
  then have "nat (int m mod int (length a)) = m"
    by (simp add: nat_mod_distrib flip: zmod_int)
  then show ?thesis
    using \<open>m < length a\<close> by (simp add: roll_def rotate_drop_take)
qed

lemma assign_tail_fits:
  "length v = k \<Longrightarrow> k \<le> length a \<Longrightarrow> assign_tail a k v = Inr (take (length a - k) a @ v)"
  by (simp add: assign_tail_def)

lemma push_array:
  assumes "length v = m" and "m \<le> length a"
  shows "assign_tail (roll a (- int m)) m v = Inr (drop m a @ v)"
  using assms by (simp add: assign_tail_fits roll_left)

text \<open>One tick with a batch that is not empty and fits into the buffer.\<close>

lemma tick_push:
  assumes "poller w \<noteq> None" and "length d = m" and "length t = m" and "0 < m"
    and "m \<le> length (data w)" and "m \<le> length (time w)"
  shows "on_timerPlotUpdate_expired (t, d) w =
     (None, w\<lparr>data := drop m (data w) @ d, time := drop m (time w) @ t,
              curve := (drop m (time w) @ t, drop m (data w) @ d)\<rparr>)"
proof -
  from assms(1) obtain p where p: "poller w = Some p" by auto
  have d: "assign_tail (roll (data w) (- int m)) m d = Inr (drop m (data w) @ d)"
    using assms(2,5) by (rule push_array)
  have t: "assign_tail (roll (time w) (- int m)) m t = Inr (drop m (time w) @ t)"
    using assms(3,6) by (rule push_array)
  have "d \<noteq> []"
    using assms(2,4) by auto
  then show ?thesis
    using p assms(2) d t by (simp add: on_timerPlotUpdate_expired_def Let_def)
qed

lemma tick_empty:
  "poller w \<noteq> None \<Longrightarrow> on_timerPlotUpdate_expired (t, []) w = (None, w)"
  by (auto simp: on_timerPlotUpdate_expired_def)

lemma ticks_keep_length:
  "poller w \<noteq> None \<Longrightarrow> length (data w) = n \<Longrightarrow> length (time w) = n \<Longrightarrow>
   list_all (\<lambda>td. length (fst td) = length (snd td) \<and> length (snd td) \<le> n) tds \<Longrightarrow>
   \<exists>w'. ticks tds w = (None, w') \<and> length (data w') = n \<and> length (time w') = n"
proof (induction tds arbitrary: w)
  case Nil
  then show ?case by simp
next
  case (Cons td tds)
  obtain t d where td: "td = (t, d)" by (cases td)
  from Cons.prems(4) td have len: "length t = length d" "length d \<le> n"
    and rest: "list_all (\<lambda>td. length (fst td) = length (snd td) \<and> length (snd td) \<le> n) tds"
    by simp_all
  show ?case
  proof (cases "d = []")
    case True
    with Cons.prems(1) td have "on_timerPlotUpdate_expired td w = (None, w)"
      by (simp add: tick_empty)
    with Cons.IH [OF Cons.prems(1-3) rest] show ?thesis by simp
  next
    case False
    let ?w1 = "w\<lparr>data := drop (length d) (data w) @ d, time := drop (length d) (time w) @ t,
              curve := (drop (length d) (time w) @ t, drop (length d) (data w) @ d)\<rparr>"
    from False Cons.prems(1-3) len td
    have step: "on_timerPlotUpdate_expired td w = (None, ?w1)"
      by (simp add: tick_push [of w d "length d" t])
    have "poller ?w1 \<noteq> None" "length (data ?w1) = n" "length (time ?w1) = n"
      using Cons.prems(1-3) len by simp_all
    from Cons.IH [OF this rest] step show ?thesis by simp
  qed
qed

text \<open>
  Claim C7. Right after \<^verbatim>\<open>enableScope\<close> the buffer holds exactly \<open>N_SAMPLES\<close>
  values, all zero, at \<open>N_SAMPLES\<close> negative timestamps; and after any number of timer
  ticks, each draining a batch of at most \<open>N_SAMPLES\<close> samples (as many timestamps as
  values), no tick has raised and both arrays still have length \<open>N_SAMPLES\<close>.
\<close>

theorem sample_buffer_length_invariant:
  assumes "list_all (\<lambda>td. length (fst td) = length (snd td) \<and> length (snd td) \<le> N_SAMPLES) tds"
  shows "data (enableScope rg w) = replicate N_SAMPLES 0
       \<and> length (time (enableScope rg w)) = N_SAMPLES
       \<and> list_all (\<lambda>x. x < 0) (time (enableScope rg w))
       \<and> (\<exists>w'. ticks tds (enableScope rg w) = (None, w')
              \<and> length (data w') = N_SAMPLES \<and> length (time w') = N_SAMPLES)"
  using ticks_keep_length [of "enableScope rg w" N_SAMPLES tds, OF _ _ _ assms]
  by (simp add: data_enableScope length_time_enableScope time_enableScope_negative)

theorem sample_buffer_length_invariant_witness:
  "N_SAMPLES = 1000
   \<and> (\<exists>w'. ticks [([1/100, 2/100], [7, 8]), ([], []), ([3/100], [9])]
             (enableScope POS_ACTUAL init_window) = (None, w')
          \<and> length (data w') = N_SAMPLES \<and> length (time w') = N_SAMPLES)"
proof -
  have "list_all (\<lambda>td. length (fst td) = length (snd td) \<and> length (snd td) \<le> N_SAMPLES)
     [([1/100, 2/100], [7, 8]), ([], []), ([3/100], [9::real])]"
    by (simp add: N_SAMPLES_def)
  from sample_buffer_length_invariant [OF this, of POS_ACTUAL init_window] show ?thesis
    by (simp add: N_SAMPLES_def)
qed

text \<open>
  Claim C8. A tick that drains \<open>m\<close> samples, \<open>0 < m \<le> n\<close>, into a buffer of length
  \<open>n\<close> drops the \<open>m\<close> oldest entries, keeps the other \<open>n - m\<close> in their order and
  appends the drained samples in their order: the last \<open>m\<close> entries of the buffer are
  the drained samples, and the length is still \<open>n\<close>.
\<close>

theorem push_drops_oldest:
  assumes "poller w \<noteq> None" and "length (data w) = n" and "length (time w) = n"
    and "length d = m" and "length t = m" and "0 < m" and "m \<le> n"
  shows "\<exists>w'. on_timerPlotUpdate_expired (t, d) w = (None, w')
            \<and> data w' = drop m (data w) @ d \<and> time w' = drop m (time w) @ t
            \<and> length (data w') = n \<and> length (time w') = n
            \<and> drop (n - m) (data w') = d \<and> drop (n - m) (time w') = t"
  using assms tick_push [of w d m t] by simp

text \<open>The scenario of the specification: five samples drained by the first tick after
  the scope was switched on.\<close>

theorem push_drops_oldest_witness:
  "\<exists>w'. on_timerPlotUpdate_expired ([1/100, 2/100, 3/100, 4/100, 5/100], [1, 2, 3, 4, 5])
           (enableScope POS_ACTUAL init_window) = (None, w')
       \<and> drop (N_SAMPLES - 5) (data w') = [1, 2, 3, 4, 5]
       \<and> drop (N_SAMPLES - 5) (time w') = [1/100, 2/100, 3/100, 4/100, 5/100]
       \<and> length (data w') = N_SAMPLES \<and> length (time w') = N_SAMPLES"
proof -
  have n: "(5::nat) \<le> N_SAMPLES"
    by (simp add: N_SAMPLES_def)
  from push_drops_oldest [of "enableScope POS_ACTUAL init_window" N_SAMPLES "[1, 2, 3, 4, 5]" 5
      "[1/100, 2/100, 3/100, 4/100, 5/100]"] n
  show ?thesis
    by (simp add: length_data_enableScope length_time_enableScope) blast
qed

end
